theory Spec2Isabelle
  imports Main "HOL-Library.Word"
begin

unbundle bit_operations_syntax

section \<open>Bytes, slices and big-endian fields\<close>

type_synonym byte = "8 word"
type_synonym uint16 = "16 word"
type_synonym uint32 = "32 word"

text \<open>
  Every error value the package builds with \<open>newOpError\<close> or \<open>&OpError{...}\<close>, and the
  two run-time panics of Go that the modelled functions can raise (an index or a slice
  expression out of range, an integer division by zero).
\<close>

datatype error =
    RecvTooShort
  | RecvTooLong
  | ChecksumFail
  | LengthInvalid
  | PayloadTooBig
  | FileNameTooLong
  | TransactionTimeout
  | ServerError "byte list"
  | BadFile
  | ENOMSG
  | PanicIndex
  | PanicSlice
  | PanicDivide

text \<open>
  A Go byte slice: \<open>vis\<close> holds the elements \<open>s[0] .. s[len(s)-1]\<close>, \<open>spare\<close> the
  elements of the backing array between \<open>len(s)\<close> and \<open>cap(s)\<close>. A slice expression
  \<open>s[a:b]\<close> may reach into the spare part (Go checks \<open>b\<close> against the capacity), an
  index expression \<open>s[i]\<close> may not.
\<close>

record slice =
  vis :: "byte list"
  spare :: "byte list"

definition nil_slice :: slice where
  "nil_slice = \<lparr>vis = [], spare = []\<rparr>"

definition make_slice :: "nat \<Rightarrow> slice" where
  "make_slice n = \<lparr>vis = replicate n 0, spare = []\<rparr>"

definition cap :: "slice \<Rightarrow> nat" where
  "cap s = length (vis s) + length (spare s)"

text \<open>
  \<open>append(s, xs...)\<close>: in place when the capacity suffices, otherwise into a new array.
  How much room the runtime adds to a new array is not fixed by the language; it is the
  parameter \<open>grow\<close> (old capacity, needed length); the added room is zeroed.
\<close>

definition append_slice :: "(nat \<Rightarrow> nat \<Rightarrow> nat) \<Rightarrow> slice \<Rightarrow> byte list \<Rightarrow> slice" where
  "append_slice grow s xs =
     (if length xs \<le> length (spare s)
      then \<lparr>vis = vis s @ xs, spare = drop (length xs) (spare s)\<rparr>
      else \<lparr>vis = vis s @ xs,
            spare = replicate (grow (cap s) (length (vis s) + length xs)) 0\<rparr>)"

text \<open>The bytes of the slice expression \<open>s[a:b]\<close>.\<close>

definition slice_bytes :: "slice \<Rightarrow> nat \<Rightarrow> nat \<Rightarrow> error + byte list" where
  "slice_bytes s a b =
     (if a \<le> b \<and> b \<le> cap s then Inr (take (b - a) (drop a (vis s @ spare s)))
      else Inl PanicSlice)"

text \<open>\<open>copy(s[off:], src)\<close>: copies \<open>min(len(s) - off, len(src))\<close> bytes.\<close>

definition copy_at :: "slice \<Rightarrow> nat \<Rightarrow> byte list \<Rightarrow> error + slice" where
  "copy_at s off src =
     (if off \<le> length (vis s)
      then (let n = min (length (vis s) - off) (length src)
            in Inr (s\<lparr>vis := take off (vis s) @ take n src @ drop (off + n) (vis s)\<rparr>))
      else Inl PanicSlice)"

text \<open>\<open>encoding/binary.BigEndian\<close>, on a slice that is long enough.\<close>

definition Uint16 :: "byte list \<Rightarrow> uint16" where
  "Uint16 b = ucast (b ! 1) OR push_bit 8 (ucast (b ! 0))"

definition Uint32 :: "byte list \<Rightarrow> uint32" where
  "Uint32 b = ucast (b ! 3) OR push_bit 8 (ucast (b ! 2))
                OR push_bit 16 (ucast (b ! 1)) OR push_bit 24 (ucast (b ! 0))"

definition PutUint16 :: "uint16 \<Rightarrow> byte list" where
  "PutUint16 v = [ucast (drop_bit 8 v), ucast v]"

definition PutUint32 :: "uint32 \<Rightarrow> byte list" where
  "PutUint32 v = [ucast (drop_bit 24 v), ucast (drop_bit 16 v), ucast (drop_bit 8 v), ucast v]"

section \<open>Packet codec (packet.go)\<close>

definition FSPCommandVersion :: byte where "FSPCommandVersion = 0x10"
definition FSPCommandInfo :: byte where "FSPCommandInfo = 0x11"
definition FSPCommandErr :: byte where "FSPCommandErr = 0x40"
definition FSPCommandGetDir :: byte where "FSPCommandGetDir = 0x41"
definition FSPCommandGetFile :: byte where "FSPCommandGetFile = 0x42"
definition FSPCommandUpload :: byte where "FSPCommandUpload = 0x43"
definition FSPCommandInstall :: byte where "FSPCommandInstall = 0x44"
definition FSPCommandGetPro :: byte where "FSPCommandGetPro = 0x47"
definition FSPCommandGrabFile :: byte where "FSPCommandGrabFile = 0x4B"
definition FSPCommandRename :: byte where "FSPCommandRename = 0x4E"

definition FSPHSzie :: nat where "FSPHSzie = 12"
definition FSPSpace :: nat where "FSPSpace = 14708"
definition FSPMaxPacket :: nat where "FSPMaxPacket = FSPHSzie + FSPSpace"

definition fspOffsetCmd :: nat where "fspOffsetCmd = 0"
definition fspOffsetSum :: nat where "fspOffsetSum = 1"
definition fspOffsetKey :: nat where "fspOffsetKey = 2"
definition fspOffsetSeq :: nat where "fspOffsetSeq = 4"
definition fspOffsetLen :: nat where "fspOffsetLen = 6"
definition fspOffsetPos :: nat where "fspOffsetPos = 8"

definition FSPProBytes :: uint32 where "FSPProBytes = 1"

text \<open>The struct \<open>fspPacket\<close>; its field \<open>sum\<close> is \<open>sum_p\<close> here.\<close>

record fspPacket =
  cmd :: byte
  sum_p :: byte
  key :: uint16
  seq :: uint16
  len :: uint16
  pos :: uint32
  xlen :: uint16
  buf :: slice

text \<open>The zero value of the struct (\<open>var out fspPacket\<close>).\<close>

definition zero_packet :: fspPacket where
  "zero_packet = \<lparr>cmd = 0, sum_p = 0, key = 0, seq = 0, len = 0, pos = 0, xlen = 0,
                   buf = nil_slice\<rparr>"

text \<open>
  \<open>read\<close>'s checksum of a received datagram: the sum of all bytes but the sum byte,
  folded once. The datagram length is not added.
\<close>

definition read_sum :: "byte list \<Rightarrow> int" where
  "read_sum buff =
     (let mySum = sum_list (map uint buff) - uint (buff ! fspOffsetSum)
      in (mySum + drop_bit 8 mySum) AND 0xff)"

text \<open>
  \<open>fspPacket.read\<close> writes into the receiver as it goes: the header fields are stored
  before the length field is checked. The result is the error (if any) and the packet.
\<close>

definition read :: "fspPacket \<Rightarrow> byte list \<Rightarrow> error option \<times> fspPacket" where
  "read pkt buff =
     (if length buff < FSPHSzie then (Some RecvTooShort, pkt)
      else if length buff > FSPMaxPacket then (Some RecvTooLong, pkt)
      else if read_sum buff \<noteq> uint (buff ! fspOffsetSum) then (Some ChecksumFail, pkt)
      else
        (let pkt1 = pkt\<lparr>cmd := buff ! fspOffsetCmd,
                        sum_p := word_of_int (read_sum buff),
                        key := Uint16 (drop fspOffsetKey buff),
                        seq := Uint16 (drop fspOffsetSeq buff),
                        len := Uint16 (drop fspOffsetLen buff),
                        pos := Uint32 (drop fspOffsetPos buff)\<rparr>
         in if unat (len pkt1) + FSPHSzie > length buff then (Some LengthInvalid, pkt1)
            else (None, pkt1\<lparr>xlen := word_of_nat (length buff) - len pkt1 - word_of_nat FSPHSzie,
                             buf := \<lparr>vis = drop FSPHSzie buff, spare = []\<rparr>\<rparr>)))"

text \<open>
  \<open>fspPacket.buildFileName\<close>. Go strings are byte sequences; newline is 10, NUL is 0.
  The \<open>uint16\<close> arithmetic on \<open>len\<close> wraps.
\<close>

definition buildFileName ::
  "(nat \<Rightarrow> nat \<Rightarrow> nat) \<Rightarrow> fspPacket \<Rightarrow> byte list \<Rightarrow> byte list \<Rightarrow> error option \<times> fspPacket" where
  "buildFileName grow pkt fileName password =
     (if length fileName + length password + 2 \<ge> FSPSpace then (Some FileNameTooLong, pkt)
      else
        (let pkt1 = pkt\<lparr>buf := append_slice grow (buf pkt) fileName,
                        len := word_of_nat (length fileName)\<rparr>;
             pkt2 = (if password \<noteq> []
                     then (let p1 = pkt1\<lparr>buf := append_slice grow (buf pkt1) [10],
                                          len := len pkt1 + 1\<rparr>
                           in p1\<lparr>buf := append_slice grow (buf p1) password,
                                 len := len p1 + word_of_nat (length password)\<rparr>)
                     else pkt1)
         in (None, pkt2\<lparr>buf := append_slice grow (buf pkt2) [0], len := len pkt2 + 1\<rparr>)))"

text \<open>
  \<open>fspPacket.write\<close> (here \<open>write_packet\<close>) up to the call of \<open>WriteToUDP\<close>: the datagram \<open>sendBuff[:used]\<close>
  handed to the socket, or the error or panic raised before. \<open>pktSize\<close> is
  \<open>s.trans.pktSize\<close>. The checksum adds the datagram length \<open>used\<close>.
\<close>

definition write_sum :: "byte list \<Rightarrow> byte" where
  "write_sum sendBuff =
     (let checksum = sum_list (map uint sendBuff) + int (length sendBuff)
      in word_of_int (checksum + drop_bit 8 checksum))"

definition stamp :: "byte list \<Rightarrow> byte list" where
  "stamp sendBuff = sendBuff[fspOffsetSum := write_sum sendBuff]"

definition header :: "fspPacket \<Rightarrow> byte list" where
  "header pkt = [cmd pkt, 0] @ PutUint16 (key pkt) @ PutUint16 (seq pkt)
                  @ PutUint16 (len pkt) @ PutUint32 (pos pkt)"

definition write_packet :: "uint16 \<Rightarrow> fspPacket \<Rightarrow> error + byte list" where
  "write_packet pktSize pkt =
     (if unat (xlen pkt + len pkt) > FSPSpace then Inl PayloadTooBig
      else
        (case slice_bytes (buf pkt) 0 (unat (len pkt)) of
           Inl e \<Rightarrow> Inl e
         | Inr a \<Rightarrow>
             (if cmd pkt = FSPCommandGetFile
              then (if xlen pkt = 2 then Inr (stamp (header pkt @ a @ PutUint16 pktSize))
                    else Inr (stamp (header pkt @ a)))
              else if xlen pkt > 0
              then (case slice_bytes (buf pkt) (unat (len pkt)) (unat (len pkt + xlen pkt)) of
                      Inl e \<Rightarrow> Inl e
                    | Inr b \<Rightarrow> Inr (stamp (header pkt @ a @ b)))
              else Inr (stamp (header pkt @ a)))))"

text \<open>The two payload regions of a packet: region A is \<open>buf[:len]\<close>, region B is
  \<open>buf[len:len+xlen]\<close>.\<close>

definition regionA :: "fspPacket \<Rightarrow> byte list" where
  "regionA pkt = take (unat (len pkt)) (vis (buf pkt) @ spare (buf pkt))"

definition regionB :: "fspPacket \<Rightarrow> byte list" where
  "regionB pkt = take (unat (xlen pkt)) (drop (unat (len pkt)) (vis (buf pkt) @ spare (buf pkt)))"

text \<open>What \<open>write\<close> puts behind region A: for \<open>GET_FILE\<close> the packet-size hint of the
  session (when \<open>xlen = 2\<close>) or nothing, for every other command region B.\<close>

definition regionB_sent :: "uint16 \<Rightarrow> fspPacket \<Rightarrow> byte list" where
  "regionB_sent pktSize p =
     (if cmd p = FSPCommandGetFile then (if xlen p = 2 then PutUint16 pktSize else [])
      else regionB p)"

section \<open>Directory decoder (file.go)\<close>

definition fspEntryTypeFile :: byte where "fspEntryTypeFile = 0x01"
definition fspEntryTypeDir :: byte where "fspEntryTypeDir = 0x02"
definition fspEntryTypeLink :: byte where "fspEntryTypeLink = 0x03"















section \<open>Session and key store (session.go)\<close>

text \<open>
  The fields of \<open>Session\<close> that the modelled functions read or write: the password, the
  key string \<open>lock\<close>, \<open>trans.pktSize\<close>, the sequence number \<open>seq\<close> (here \<open>sseq\<close>) and the
  counter \<open>dupes\<close>. The socket, the addresses, the time-out settings and the transfer meter
  are not part of the state; what they contribute is the input of the functions below.
\<close>

record Session =
  password :: "byte list"
  lock :: "byte list"
  pktSize :: uint16
  sseq :: uint16
  dupes :: "64 word"










section \<open>Properties of the packet codec\<close>

lemma Uint16_cons: "Uint16 (ucast (drop_bit 8 v) # ucast v # r) = v"
  unfolding Uint16_def
  by (rule bit_word_eqI) (auto simp add: bit_simps)

lemma Uint16_PutUint16: "Uint16 (PutUint16 v @ r) = v"
  by (simp add: PutUint16_def Uint16_cons)

lemma Uint32_cons:
  "Uint32 (ucast (drop_bit 24 v) # ucast (drop_bit 16 v) # ucast (drop_bit 8 v) # ucast v # r) = v"
  unfolding Uint32_def
  apply (rule bit_word_eqI) 
  apply (auto simp add: bit_simps)
  subgoal for n by (cases "24 \<le> n") auto
  done

lemma Uint32_PutUint32: "Uint32 (PutUint32 v @ r) = v"
  by (simp add: PutUint32_def Uint32_cons)

lemma sum_zeroed:
  "1 < length d \<Longrightarrow> sum_list (map uint (d[1 := 0])) = sum_list (map uint d) - uint (d ! 1)"
  by (cases d; cases "tl d") auto

lemma read_sum_zeroed:
  "1 < length d \<Longrightarrow>
     read_sum d = (let s = sum_list (map uint (d[1 := 0])) in (s + drop_bit 8 s) AND 0xff)"
  using sum_zeroed [of d] by (simp add: read_sum_def fspOffsetSum_def Let_def)

lemma read_ok_iff:
  "fst (read r0 d) = None \<longleftrightarrow>
     (12 \<le> length d \<and> length d \<le> 14720 \<and> 12 + unat (Uint16 (drop 6 d)) \<le> length d
       \<and> uint (d ! 1) = read_sum d)"
  by (auto simp add: read_def Let_def FSPHSzie_def FSPMaxPacket_def FSPSpace_def fspOffsetSum_def fspOffsetLen_def)

text \<open>
  Claim C2 (amended). For every received datagram \<open>d\<close>, \<open>read\<close> succeeds if and only if the
  length of \<open>d\<close> is between 12 and 14720, 12 plus the length field is at most the length of
  \<open>d\<close>, and the sum byte equals \<open>(s + (s >> 8)) & 0xff\<close> where \<open>s\<close> is the sum of the bytes
  of \<open>d\<close> with the sum byte zeroed. The datagram length is not part of \<open>s\<close>.
\<close>

theorem read_succeeds_iff:
  "fst (read r0 d) = None \<longleftrightarrow>
     (12 \<le> length d \<and> length d \<le> 14720 \<and> 12 + unat (Uint16 (drop 6 d)) \<le> length d
       \<and> (let s = sum_list (map uint (d[1 := 0])) in uint (d ! 1) = (s + drop_bit 8 s) AND 0xff))"
proof (cases "1 < length d")
  case True
  then show ?thesis unfolding read_ok_iff by (simp add: read_sum_zeroed Let_def)
next
  case False
  then show ?thesis unfolding read_ok_iff by simp
qed

theorem read_succeeds_iff_witness:
  "fst (read zero_packet [0x10, 0x10, 0, 0, 0, 0, 0, 0, 0, 0, 0, 0]) = None"
  using read_succeeds_iff [of zero_packet "[0x10, 0x10, 0, 0, 0, 0, 0, 0, 0, 0, 0, 0]"]
  by (simp add: Uint16_def)

text \<open>
  With the datagram length added to \<open>s\<close>, as claim C2 states the checksum, the equivalence
  fails: a 12-byte \<open>VERSION\<close> reply with sum byte 16 is accepted, and the length-inclusive
  formula gives 28.
\<close>

theorem read_checksum_with_length_counterexample:
  "\<not> (fst (read zero_packet [0x10, 0x10, 0, 0, 0, 0, 0, 0, 0, 0, 0, 0]) = None \<longleftrightarrow>
      (12 \<le> length [0x10, 0x10, 0, 0, 0, 0, 0, 0, 0, 0, 0, 0 :: byte]
       \<and> length [0x10, 0x10, 0, 0, 0, 0, 0, 0, 0, 0, 0, 0 :: byte] \<le> 14720
       \<and> 12 + unat (Uint16 (drop 6 [0x10, 0x10, 0, 0, 0, 0, 0, 0, 0, 0, 0, 0])) 
            \<le> length [0x10, 0x10, 0, 0, 0, 0, 0, 0, 0, 0, 0, 0 :: byte]
       \<and> (let s = int (length [0x10, 0x10, 0, 0, 0, 0, 0, 0, 0, 0, 0, 0 :: byte])
                     + sum_list (map uint ([0x10, 0x10, 0, 0, 0, 0, 0, 0, 0, 0, 0, 0 :: byte][1 := 0]))
          in uint ([0x10, 0x10, 0, 0, 0, 0, 0, 0, 0, 0, 0, 0 :: byte] ! 1) = (s + drop_bit 8 s) AND 0xff)))"
  by (simp add: read_def read_sum_def Let_def FSPHSzie_def FSPMaxPacket_def FSPSpace_def
        fspOffsetSum_def fspOffsetLen_def Uint16_def)

lemma uint_byte_of_int: "uint (word_of_int c :: byte) = c AND 0xff"
  by (simp add: uint_word_of_int_eq take_bit_eq_mask mask_eq_exp_minus_1)

lemma length_header: "length (header p) = 12"
  by (simp add: header_def PutUint16_def PutUint32_def)

lemma stamp_fields:
  "length (stamp (header p @ pl)) = 12 + length pl"
  "stamp (header p @ pl) ! 0 = cmd p"
  "Uint16 (drop 2 (stamp (header p @ pl))) = key p"
  "Uint16 (drop 4 (stamp (header p @ pl))) = seq p"
  "Uint16 (drop 6 (stamp (header p @ pl))) = len p"
  "Uint32 (drop 8 (stamp (header p @ pl))) = pos p"
  "drop 12 (stamp (header p @ pl)) = pl"
  by (simp_all add: stamp_def header_def fspOffsetSum_def drop_update_cancel
        Uint16_cons Uint32_cons PutUint16_def PutUint32_def)

lemma read_stamped:
  assumes "length pl \<le> FSPSpace" and "unat (len p) \<le> length pl"
  shows "read r0 (stamp (header p @ pl)) =
     (if read_sum (stamp (header p @ pl)) \<noteq> uint (stamp (header p @ pl) ! 1)
      then (Some ChecksumFail, r0)
      else (None, r0\<lparr>cmd := cmd p, sum_p := word_of_int (read_sum (stamp (header p @ pl))),
                key := key p, seq := seq p, len := len p, pos := pos p,
                xlen := word_of_nat (12 + length pl) - len p - 12,
                buf := \<lparr>vis = pl, spare = []\<rparr>\<rparr>))"
  using assms
  by (simp add: read_def Let_def stamp_fields FSPHSzie_def FSPMaxPacket_def
        fspOffsetSum_def fspOffsetCmd_def fspOffsetKey_def fspOffsetSeq_def fspOffsetLen_def
        fspOffsetPos_def)

lemma length_regionA: "unat (len p) \<le> cap (buf p) \<Longrightarrow> length (regionA p) = unat (len p)"
  by (simp add: regionA_def cap_def)

lemma length_regionB:
  "unat (len p) + unat (xlen p) \<le> cap (buf p) \<Longrightarrow> length (regionB p) = unat (xlen p)"
  by (simp add: regionB_def cap_def)

lemma length_regionB_sent:
  "unat (len p) + (if cmd p = FSPCommandGetFile then 0 else unat (xlen p)) \<le> cap (buf p) \<Longrightarrow>
     length (regionB_sent ps p) =
       (if cmd p = FSPCommandGetFile then (if xlen p = 2 then 2 else 0) else unat (xlen p))"
  by (cases "cmd p = FSPCommandGetFile") (simp_all add: regionB_sent_def length_regionB PutUint16_def)

lemma unat_len_xlen:
  fixes l x :: uint16
  assumes "unat l + unat x \<le> FSPSpace"
  shows "unat (x + l) = unat l + unat x" "unat (l + x) = unat l + unat x"
proof -
  have "unat l + unat x < 2 ^ LENGTH(16)" using assms by (simp add: FSPSpace_def)
  then show "unat (l + x) = unat l + unat x" using unat_add_lem [of l x] by simp
  then show "unat (x + l) = unat l + unat x" by (simp add: add.commute)
qed

lemma write_packet_datagram:
  assumes "unat (len p) + unat (xlen p) \<le> FSPSpace"
      and "unat (len p) + (if cmd p = FSPCommandGetFile then 0 else unat (xlen p)) \<le> cap (buf p)"
  shows "write_packet ps p = Inr (stamp (header p @ regionA p @ regionB_sent ps p))"
proof -
  have a: "slice_bytes (buf p) 0 (unat (len p)) = Inr (regionA p)"
    using assms by (simp add: slice_bytes_def regionA_def split: if_splits)
  have z: "xlen p = 0 \<Longrightarrow> regionB p = []" by (simp add: regionB_def)
  have s1: "\<not> FSPSpace < unat (xlen p + len p)"
    using assms by (simp add: unat_len_xlen)
  show ?thesis
  proof (cases "cmd p = FSPCommandGetFile")
    case True
    then show ?thesis by (simp add: write_packet_def a s1 regionB_sent_def)
  next
    case nget: False
    have b: "slice_bytes (buf p) (unat (len p)) (unat (len p + xlen p)) = Inr (regionB p)"
      using assms nget by (simp add: slice_bytes_def regionB_def unat_len_xlen)
    show ?thesis
    proof (cases "xlen p = 0")
      case True
      with assms have "\<not> FSPSpace < unat (len p)" by simp
      with True nget z show ?thesis by (simp add: write_packet_def a regionB_sent_def)
    next
      case False
      then have "0 < xlen p" by (simp add: word_greater_zero_iff)
      with nget show ?thesis by (simp add: write_packet_def a b s1 regionB_sent_def)
    qed
  qed
qed

lemma read_sum_update: "1 < length d \<Longrightarrow> read_sum (d[1 := c]) = read_sum (d[1 := 0])"
  using sum_zeroed [of "d[1 := c]"] sum_zeroed [of "d[1 := 0]"]
  by (simp add: read_sum_def fspOffsetSum_def Let_def)

lemma read_sum_range: "0 \<le> read_sum d \<and> read_sum d < 256"
proof -
  have "x AND 0xff = x mod 256" for x :: int
    using take_bit_eq_mask [of 8 x] by (simp add: mask_eq_exp_minus_1 take_bit_eq_mod)
  then show ?thesis by (simp add: read_sum_def Let_def)
qed

lemma read_restamped:
  assumes "length pl \<le> FSPSpace" and "unat (len p) \<le> length pl"
  shows "read r0 ((stamp (header p @ pl))[1 := word_of_int (read_sum (stamp (header p @ pl)))]) =
      (None, r0\<lparr>cmd := cmd p, sum_p := word_of_int (read_sum (stamp (header p @ pl))),
                key := key p, seq := seq p, len := len p, pos := pos p,
                xlen := word_of_nat (12 + length pl) - len p - 12,
                buf := \<lparr>vis = pl, spare = []\<rparr>\<rparr>)"
proof -
  let ?d = "stamp (header p @ pl)"
  let ?c = "word_of_int (read_sum ?d) :: byte"
  define d2 where "d2 = ?d[1 := ?c]"
  have ld: "1 < length ?d" by (simp add: stamp_fields)
  have rs: "read_sum d2 = read_sum ?d"
    unfolding d2_def
    using read_sum_update [OF ld, of ?c] read_sum_update [OF ld, of "?d ! 1"] by simp
  have uc: "uint ?c = read_sum ?d"
    using read_sum_range [of ?d] by (simp add: uint_word_of_int_eq take_bit_eq_mod)
  have f: "length d2 = 12 + length pl"
    "d2 ! 0 = cmd p"
    "d2 ! 1 = ?c"
    "Uint16 (drop 2 d2) = key p"
    "Uint16 (drop 4 d2) = seq p"
    "Uint16 (drop 6 d2) = len p"
    "Uint32 (drop 8 d2) = pos p"
    "drop 12 d2 = pl"
    unfolding d2_def
    by (simp_all add: stamp_def header_def fspOffsetSum_def drop_update_cancel
        Uint16_cons Uint32_cons PutUint16_def PutUint32_def)
  from f(3) have f3: "d2 ! Suc 0 = ?c" by simp
  have "read r0 d2 =
      (None, r0\<lparr>cmd := cmd p, sum_p := word_of_int (read_sum ?d),
                key := key p, seq := seq p, len := len p, pos := pos p,
                xlen := word_of_nat (12 + length pl) - len p - 12,
                buf := \<lparr>vis = pl, spare = []\<rparr>\<rparr>)"
    using assms
    by (simp add: read_def Let_def f f3 rs uc FSPHSzie_def FSPMaxPacket_def
        fspOffsetSum_def fspOffsetCmd_def fspOffsetKey_def fspOffsetSeq_def fspOffsetLen_def
        fspOffsetPos_def)
  then show ?thesis unfolding d2_def .
qed

lemma restamped_regions:
  assumes la: "length a = unat (len p)"
      and lab: "length a + length b \<le> FSPSpace"
  shows "fst (read r0 ((stamp (header p @ a @ b))[1 := word_of_int (read_sum (stamp (header p @ a @ b)))])) = None"
    and "cmd (snd (read r0 ((stamp (header p @ a @ b))[1 := word_of_int (read_sum (stamp (header p @ a @ b)))]))) = cmd p"
    and "key (snd (read r0 ((stamp (header p @ a @ b))[1 := word_of_int (read_sum (stamp (header p @ a @ b)))]))) = key p"
    and "seq (snd (read r0 ((stamp (header p @ a @ b))[1 := word_of_int (read_sum (stamp (header p @ a @ b)))]))) = seq p"
    and "len (snd (read r0 ((stamp (header p @ a @ b))[1 := word_of_int (read_sum (stamp (header p @ a @ b)))]))) = len p"
    and "pos (snd (read r0 ((stamp (header p @ a @ b))[1 := word_of_int (read_sum (stamp (header p @ a @ b)))]))) = pos p"
    and "xlen (snd (read r0 ((stamp (header p @ a @ b))[1 := word_of_int (read_sum (stamp (header p @ a @ b)))]))) = word_of_nat (length b)"
    and "regionA (snd (read r0 ((stamp (header p @ a @ b))[1 := word_of_int (read_sum (stamp (header p @ a @ b)))]))) = a"
    and "regionB (snd (read r0 ((stamp (header p @ a @ b))[1 := word_of_int (read_sum (stamp (header p @ a @ b)))]))) = b"
proof -
  let ?d = "stamp (header p @ a @ b)"
  let ?d' = "?d[1 := word_of_int (read_sum ?d)]"
  have pl1: "length (a @ b) \<le> FSPSpace" using lab by simp
  have pl2: "unat (len p) \<le> length (a @ b)" using la by simp
  have x: "(word_of_nat (12 + length (a @ b)) :: uint16) - len p - 12 = word_of_nat (length b)"
    using la by simp
  have ub: "unat (word_of_nat (length b) :: uint16) = length b"
    using lab by (simp add: unat_of_nat FSPSpace_def)
  have r: "read r0 ?d' =
      (None, r0\<lparr>cmd := cmd p, sum_p := word_of_int (read_sum ?d),
                key := key p, seq := seq p, len := len p, pos := pos p,
                xlen := word_of_nat (length b),
                buf := \<lparr>vis = a @ b, spare = []\<rparr>\<rparr>)"
    unfolding read_restamped [OF pl1 pl2] x ..
  show "fst (read r0 ?d') = None"
    "cmd (snd (read r0 ?d')) = cmd p" "key (snd (read r0 ?d')) = key p"
    "seq (snd (read r0 ?d')) = seq p" "len (snd (read r0 ?d')) = len p"
    "pos (snd (read r0 ?d')) = pos p" "xlen (snd (read r0 ?d')) = word_of_nat (length b)"
    "regionA (snd (read r0 ?d')) = a" "regionB (snd (read r0 ?d')) = b"
    unfolding r using la by (simp_all add: regionA_def regionB_def ub)
qed

text \<open>
  Claim C1 (amended). For every packet whose payload \<open>len + xlen\<close> is at most 14708, whose
  region A lies within the capacity of \<open>buf\<close> and, unless the command is \<open>GET_FILE\<close>, whose
  region B does too, \<open>write\<close> produces a datagram. The datagram is the 12-byte header
  (\<open>cmd\<close>, sum byte, \<open>key\<close>, \<open>seq\<close>, \<open>len\<close>, \<open>pos\<close>, big-endian), then region A, then
  region B; for \<open>GET_FILE\<close> the two-byte packet-size hint of the session stands in place of
  region B when \<open>xlen = 2\<close>, and nothing otherwise. The sum byte is the folded sum of all
  other bytes plus the datagram length. \<open>read\<close> of that datagram either succeeds or fails
  with the checksum error, and it succeeds exactly when the sum byte equals the folded sum of
  the other bytes without the length, which is what \<open>read\<close> verifies. With the sum byte
  replaced by the one \<open>read\<close> expects (no change when \<open>read\<close> already accepts the
  datagram), \<open>read\<close> succeeds and reconstructs \<open>cmd\<close>, \<open>key\<close>, \<open>seq\<close>, \<open>len\<close>, \<open>pos\<close>,
  region A, and region B and \<open>xlen\<close> as they were sent.
\<close>

theorem read_write_packet:
  assumes "unat (len p) + unat (xlen p) \<le> FSPSpace"
      and "unat (len p) + (if cmd p = FSPCommandGetFile then 0 else unat (xlen p)) \<le> cap (buf p)"
  shows "\<exists>d. write_packet ps p = Inr d \<and>
           d[1 := 0] = [cmd p, 0, ucast (drop_bit 8 (key p)), ucast (key p),
                        ucast (drop_bit 8 (seq p)), ucast (seq p),
                        ucast (drop_bit 8 (len p)), ucast (len p),
                        ucast (drop_bit 24 (pos p)), ucast (drop_bit 16 (pos p)),
                        ucast (drop_bit 8 (pos p)), ucast (pos p)]
                       @ regionA p @ regionB_sent ps p \<and>
           uint (d ! 1) = (let s = sum_list (map uint (d[1 := 0])) + int (length d)
                           in (s + drop_bit 8 s) AND 0xff) \<and>
           (fst (read r0 d) = None \<or> fst (read r0 d) = Some ChecksumFail) \<and>
           (fst (read r0 d) = None \<longleftrightarrow>
              uint (d ! 1) = (let s = sum_list (map uint (d[1 := 0]))
                              in (s + drop_bit 8 s) AND 0xff)) \<and>
           (let d' = d[1 := word_of_int (read_sum d)]; r = snd (read r0 d')
            in (fst (read r0 d) = None \<longrightarrow> d' = d) \<and> fst (read r0 d') = None
               \<and> cmd r = cmd p \<and> key r = key p \<and> seq r = seq p \<and> len r = len p
               \<and> pos r = pos p \<and> regionA r = regionA p
               \<and> regionB r = regionB_sent ps p
               \<and> xlen r = (if cmd p = FSPCommandGetFile then (if xlen p = 2 then 2 else 0)
                           else xlen p))"
proof -
  let ?pl = "regionA p @ regionB_sent ps p"
  let ?d = "stamp (header p @ ?pl)"
  have la: "length (regionA p) = unat (len p)"
    using assms(2) by (simp add: length_regionA split: if_splits)
  note lb = length_regionB_sent [OF assms(2), of ps]
  have lb': "length (regionB_sent ps p) \<le> unat (xlen p)"
    unfolding lb by (simp split: if_splits)
  have w: "write_packet ps p = Inr ?d" using assms by (rule write_packet_datagram)
  have pl1: "length ?pl \<le> FSPSpace" using assms(1) la lb' by simp
  have pl2: "unat (len p) \<le> length ?pl" using la by simp
  note rd = read_stamped [OF pl1 pl2, of r0]
  have ld: "1 < length ?d" by (simp add: stamp_fields)
  have d1: "?d ! 1 = write_sum (header p @ ?pl)"
    by (simp add: stamp_def fspOffsetSum_def length_header)
  have d0: "?d[1 := 0] = header p @ ?pl"
    by (simp add: stamp_def fspOffsetSum_def header_def)
  have lu: "length (header p @ ?pl) = length ?d" by (simp add: stamp_def)
  have c0: "?d[1 := 0] = [cmd p, 0, ucast (drop_bit 8 (key p)), ucast (key p),
                        ucast (drop_bit 8 (seq p)), ucast (seq p),
                        ucast (drop_bit 8 (len p)), ucast (len p),
                        ucast (drop_bit 24 (pos p)), ucast (drop_bit 16 (pos p)),
                        ucast (drop_bit 8 (pos p)), ucast (pos p)] @ ?pl"
    unfolding d0 by (simp add: header_def PutUint16_def PutUint32_def)
  have c1: "uint (?d ! 1) = (let s = sum_list (map uint (?d[1 := 0])) + int (length ?d)
                           in (s + drop_bit 8 s) AND 0xff)"
    unfolding d1 by (simp only: d0 lu [symmetric] write_sum_def Let_def uint_byte_of_int)
  have c2: "fst (read r0 ?d) = None \<or> fst (read r0 ?d) = Some ChecksumFail"
    by (simp add: rd)
  have c3: "fst (read r0 ?d) = None \<longleftrightarrow>
      uint (?d ! 1) = (let s = sum_list (map uint (?d[1 := 0])) in (s + drop_bit 8 s) AND 0xff)"
    unfolding rd read_sum_zeroed [OF ld] by (auto simp add: Let_def)
  have ab: "length (regionA p) + length (regionB_sent ps p) \<le> FSPSpace"
    using pl1 by simp
  note f = restamped_regions [OF la ab, of r0]
  have same: "fst (read r0 ?d) = None \<longrightarrow> ?d[1 := word_of_int (read_sum ?d)] = ?d"
  proof
    assume "fst (read r0 ?d) = None"
    then have "read_sum ?d = uint (?d ! 1)" unfolding rd by (simp split: if_splits)
    then have "(word_of_int (read_sum ?d) :: byte) = ?d ! 1" by simp
    then show "?d[1 := word_of_int (read_sum ?d)] = ?d" by simp
  qed
  have x: "(word_of_nat (length (regionB_sent ps p)) :: uint16)
      = (if cmd p = FSPCommandGetFile then (if xlen p = 2 then 2 else 0) else xlen p)"
    unfolding lb by simp
  have c4: "let d' = ?d[1 := word_of_int (read_sum ?d)]; r = snd (read r0 d')
            in (fst (read r0 ?d) = None \<longrightarrow> d' = ?d) \<and> fst (read r0 d') = None
               \<and> cmd r = cmd p \<and> key r = key p \<and> seq r = seq p \<and> len r = len p
               \<and> pos r = pos p \<and> regionA r = regionA p
               \<and> regionB r = regionB_sent ps p
               \<and> xlen r = (if cmd p = FSPCommandGetFile then (if xlen p = 2 then 2 else 0)
                           else xlen p)"
    unfolding Let_def f x [symmetric] using same by simp
  show ?thesis by (rule exI [of _ ?d]) (intro conjI w c0 c1 c2 c3 c4)
qed

theorem read_write_packet_witness:
  "\<exists>d. write_packet 768
          ((snd (buildFileName (\<lambda>c n. 0) zero_packet [97, 98, 99, 100, 101, 102, 103] []))
             \<lparr>cmd := FSPCommandGetFile, xlen := 2\<rparr>) = Inr d
     \<and> d[1 := 0] = [0x42, 0, 0, 0, 0, 0, 0, 8, 0, 0, 0, 0, 97, 98, 99, 100, 101, 102, 103, 0, 3, 0]
     \<and> d ! 1 = 34
     \<and> fst (read zero_packet d) = Some ChecksumFail
     \<and> fst (read zero_packet (d[1 := word_of_int (read_sum d)])) = None
     \<and> cmd (snd (read zero_packet (d[1 := word_of_int (read_sum d)]))) = 0x42
     \<and> len (snd (read zero_packet (d[1 := word_of_int (read_sum d)]))) = 8
     \<and> xlen (snd (read zero_packet (d[1 := word_of_int (read_sum d)]))) = 2
     \<and> regionA (snd (read zero_packet (d[1 := word_of_int (read_sum d)])))
           = [97, 98, 99, 100, 101, 102, 103, 0]
     \<and> regionB (snd (read zero_packet (d[1 := word_of_int (read_sum d)]))) = [3, 0]"
proof -
  define P where "P = (snd (buildFileName (\<lambda>c n. 0) zero_packet [97, 98, 99, 100, 101, 102, 103] []))
             \<lparr>cmd := FSPCommandGetFile, xlen := 2\<rparr>"
  have p: "P = \<lparr>cmd = 0x42, sum_p = 0, key = 0, seq = 0, len = 8, pos = 0, xlen = 2,
                 buf = \<lparr>vis = [97, 98, 99, 100, 101, 102, 103, 0], spare = []\<rparr>\<rparr>"
    unfolding P_def
    by (simp add: buildFileName_def FSPSpace_def Let_def zero_packet_def nil_slice_def
          append_slice_def cap_def FSPCommandGetFile_def)
  have h1: "unat (len P) + unat (xlen P) \<le> FSPSpace"
    unfolding p by (simp add: FSPSpace_def)
  have h2: "unat (len P) + (if cmd P = FSPCommandGetFile then 0 else unat (xlen P))
              \<le> cap (buf P)"
    unfolding p by (simp add: cap_def FSPCommandGetFile_def)
  have a: "regionA P = [97, 98, 99, 100, 101, 102, 103, 0]"
    "regionB_sent 768 P = [3, 0]" "cmd P = 0x42" "len P = 8" "xlen P = 2"
    "key P = 0" "seq P = 0" "pos P = 0"
    unfolding p by (simp_all add: regionA_def regionB_sent_def FSPCommandGetFile_def PutUint16_def)
  have e: "[0x42 :: byte, 0, ucast (drop_bit 8 (0 :: uint16)), ucast (0 :: uint16),
             ucast (drop_bit 8 (0 :: uint16)), ucast (0 :: uint16),
             ucast (drop_bit 8 (8 :: uint16)), ucast (8 :: uint16),
             ucast (drop_bit 24 (0 :: uint32)), ucast (drop_bit 16 (0 :: uint32)),
             ucast (drop_bit 8 (0 :: uint32)), ucast (0 :: uint32)]
             @ [97, 98, 99, 100, 101, 102, 103, 0] @ [3, 0]
           = [0x42, 0, 0, 0, 0, 0, 0, 8, 0, 0, 0, 0, 97, 98, 99, 100, 101, 102, 103, 0, 3, 0]"
    by simp
  from read_write_packet [OF h1 h2, of 768 zero_packet]
  obtain d where w: "write_packet 768 P = Inr d"
    and d0: "d[1 := 0] = [0x42, 0, 0, 0, 0, 0, 0, 8, 0, 0, 0, 0, 97, 98, 99, 100, 101, 102, 103, 0, 3, 0]"
    and d1: "uint (d ! 1) = (let s = sum_list (map uint (d[1 := 0])) + int (length d)
                             in (s + drop_bit 8 s) AND 0xff)"
    and alt: "fst (read zero_packet d) = None \<or> fst (read zero_packet d) = Some ChecksumFail"
    and iff: "fst (read zero_packet d) = None \<longleftrightarrow>
              uint (d ! 1) = (let s = sum_list (map uint (d[1 := 0]))
                              in (s + drop_bit 8 s) AND 0xff)"
    and re: "let d' = d[1 := word_of_int (read_sum d)]; r = snd (read zero_packet d')
            in (fst (read zero_packet d) = None \<longrightarrow> d' = d) \<and> fst (read zero_packet d') = None
               \<and> cmd r = 0x42 \<and> key r = 0 \<and> seq r = 0 \<and> len r = 8
               \<and> pos r = 0 \<and> regionA r = [97, 98, 99, 100, 101, 102, 103, 0]
               \<and> regionB r = [3, 0]
               \<and> xlen r = (if (0x42 :: byte) = FSPCommandGetFile then (if (2 :: uint16) = 2 then 2 else 0)
                           else 2)"
    unfolding a e by (elim exE conjE) (rule that, assumption+)
  have ld: "length d = 22" using arg_cong [OF d0, of length] by simp
  have u: "uint (d ! 1) = 34" unfolding d1 d0 ld by (simp add: Let_def)
  then have s: "d ! 1 = 34" by (simp add: word_uint_eq_iff)
  have "fst (read zero_packet d) \<noteq> None" unfolding iff u d0 by (simp add: Let_def)
  with alt have cf: "fst (read zero_packet d) = Some ChecksumFail" by simp
  from re have r: "fst (read zero_packet (d[1 := word_of_int (read_sum d)])) = None"
     "cmd (snd (read zero_packet (d[1 := word_of_int (read_sum d)]))) = 0x42"
     "len (snd (read zero_packet (d[1 := word_of_int (read_sum d)]))) = 8"
     "xlen (snd (read zero_packet (d[1 := word_of_int (read_sum d)]))) = 2"
     "regionA (snd (read zero_packet (d[1 := word_of_int (read_sum d)])))
           = [97, 98, 99, 100, 101, 102, 103, 0]"
     "regionB (snd (read zero_packet (d[1 := word_of_int (read_sum d)]))) = [3, 0]"
    by (simp_all add: Let_def FSPCommandGetFile_def)
  have "\<exists>d. write_packet 768 P = Inr d
     \<and> d[1 := 0] = [0x42, 0, 0, 0, 0, 0, 0, 8, 0, 0, 0, 0, 97, 98, 99, 100, 101, 102, 103, 0, 3, 0]
     \<and> d ! 1 = 34
     \<and> fst (read zero_packet d) = Some ChecksumFail
     \<and> fst (read zero_packet (d[1 := word_of_int (read_sum d)])) = None
     \<and> cmd (snd (read zero_packet (d[1 := word_of_int (read_sum d)]))) = 0x42
     \<and> len (snd (read zero_packet (d[1 := word_of_int (read_sum d)]))) = 8
     \<and> xlen (snd (read zero_packet (d[1 := word_of_int (read_sum d)]))) = 2
     \<and> regionA (snd (read zero_packet (d[1 := word_of_int (read_sum d)])))
           = [97, 98, 99, 100, 101, 102, 103, 0]
     \<and> regionB (snd (read zero_packet (d[1 := word_of_int (read_sum d)]))) = [3, 0]"
    by (rule exI [of _ d]) (intro conjI w d0 s cf r)
  then show ?thesis unfolding P_def .
qed

text \<open>
  Claim C1 as stated fails: the datagram written for an empty \<open>VERSION\<close> request carries
  the sum byte 28 (16 plus the length 12), and \<open>read\<close> rejects it, since it expects 16.
\<close>

theorem read_write_packet_counterexample:
  "write_packet 768 (zero_packet\<lparr>cmd := FSPCommandVersion\<rparr>)
     = Inr [0x10, 28, 0, 0, 0, 0, 0, 0, 0, 0, 0, 0]
   \<and> fst (read zero_packet [0x10, 28, 0, 0, 0, 0, 0, 0, 0, 0, 0, 0]) = Some ChecksumFail"
  by (simp add: write_packet_def zero_packet_def nil_slice_def slice_bytes_def cap_def
        FSPSpace_def FSPCommandGetFile_def FSPCommandVersion_def stamp_def header_def
        PutUint16_def PutUint32_def write_sum_def fspOffsetSum_def Let_def
        read_def read_sum_def FSPHSzie_def FSPMaxPacket_def)

lemma vis_append_slice: "vis (append_slice grow s xs) = vis s @ xs"
  by (simp add: append_slice_def)

lemma cap_append_slice: "length (vis s) + length xs \<le> cap (append_slice grow s xs)"
  by (simp add: append_slice_def cap_def)

lemma buildFileName_ok:
  assumes "length f + length p + 2 < FSPSpace"
  shows "fst (buildFileName grow pkt f p) = None"
    and "vis (buf (snd (buildFileName grow pkt f p)))
           = vis (buf pkt) @ f @ (if p \<noteq> [] then 10 # p else []) @ [0]"
    and "len (snd (buildFileName grow pkt f p))
           = word_of_nat (length (f @ (if p \<noteq> [] then 10 # p else []) @ [0]))"
    and "cmd (snd (buildFileName grow pkt f p)) = cmd pkt"
    and "xlen (snd (buildFileName grow pkt f p)) = xlen pkt"
    and "pos (snd (buildFileName grow pkt f p)) = pos pkt"
  using assms by (simp_all add: buildFileName_def Let_def vis_append_slice)

text \<open>
  Claim C7 (amended). On a fresh packet \<open>buildFileName\<close> fails with the name-too-long error
  if and only if \<open>len(fileName) + len(password) + 2 \<ge> 14708\<close>, whether or not a password is
  set; otherwise it succeeds, \<open>buf\<close> and region A hold the file name, then newline and
  password when the password is not empty, then NUL, and \<open>len\<close> is the length of that
  payload.
\<close>

theorem buildFileName_region:
  "(fst (buildFileName grow zero_packet f p) = Some FileNameTooLong
      \<longleftrightarrow> length f + length p + 2 \<ge> 14708)
   \<and> (fst (buildFileName grow zero_packet f p) = None
      \<longleftrightarrow> length f + length p + 2 < 14708)
   \<and> (length f + length p + 2 < 14708 \<longrightarrow>
        (let r = snd (buildFileName grow zero_packet f p);
             payload = f @ (if p \<noteq> [] then 10 # p else []) @ [0]
         in vis (buf r) = payload \<and> unat (len r) = length payload \<and> regionA r = payload))"
proof (cases "length f + length p + 2 < FSPSpace")
  case True
  note b = buildFileName_ok [OF True, of grow zero_packet]
  let ?payload = "f @ (if p \<noteq> [] then 10 # p else []) @ [0]"
  have v: "vis (buf (snd (buildFileName grow zero_packet f p))) = ?payload"
    unfolding b by (simp add: zero_packet_def nil_slice_def)
  have "length ?payload < 2 ^ LENGTH(16)" using True by (simp add: FSPSpace_def)
  then have l: "unat (len (snd (buildFileName grow zero_packet f p))) = length ?payload"
    unfolding b by (simp only: unat_of_nat take_bit_nat_eq_self_iff mod_less)
  have a: "regionA (snd (buildFileName grow zero_packet f p)) = ?payload"
    unfolding regionA_def l v by simp
  from True b(1) v l a show ?thesis by (simp add: FSPSpace_def Let_def)
next
  case False
  then show ?thesis by (simp add: buildFileName_def FSPSpace_def)
qed

theorem buildFileName_region_witness:
  "fst (buildFileName (\<lambda>c n. 8) zero_packet [97, 98] [112]) = None
   \<and> regionA (snd (buildFileName (\<lambda>c n. 8) zero_packet [97, 98] [112])) = [97, 98, 10, 112, 0]
   \<and> len (snd (buildFileName (\<lambda>c n. 8) zero_packet [97, 98] [112])) = 5"
  using buildFileName_region [of "\<lambda>c n. 8" "[97, 98]" "[112]"]
  by (simp add: Let_def word_unat_eq_iff)

text \<open>
  Claim C7 as stated fails: a name of 14706 bytes without password serialises to 14707
  bytes, which does not exceed 14708, and the builder refuses it.
\<close>

theorem buildFileName_exceeds_counterexample:
  "length (replicate 14706 (97 :: byte) @ [0]) \<le> 14708
   \<and> fst (buildFileName (\<lambda>c n. 0) zero_packet (replicate 14706 97) []) = Some FileNameTooLong"
  by (simp add: buildFileName_def FSPSpace_def)


section \<open>Properties of the directory decoder\<close>












section \<open>Properties of the key store\<close>













end
